theory Spec2Isabelle
  imports Complex_Main "HOL-Library.Word"
begin

section \<open>JavaScript values as the client sees them\<close>

text \<open>
  A JavaScript string is a sequence of UTF-16 code units. Program literals are written
  as Isabelle strings and converted by \<open>u\<close>.
\<close>

type_synonym jsstring = "16 word list"

definition u :: "string \<Rightarrow> jsstring" where
  "u s = map of_char s"

text \<open>\<^verbatim>\<open>s.charAt(i)\<close>: the one-unit string at index \<open>i\<close>, the empty string out of range.\<close>

definition charAt :: "jsstring \<Rightarrow> int \<Rightarrow> jsstring" where
  "charAt s i = (if 0 \<le> i \<and> i < int (length s) then [s ! nat i] else [])"

text \<open>
  Data decoded from JSON. A number is represented by the decimal string that
  \<^verbatim>\<open>Number.prototype.toString\<close> prints for it (so zero is \<open>0\<close>); the program does no
  arithmetic on response data. An object is the list of its members in source order, and a
  later member with the same name overrides an earlier one.
\<close>

datatype json =
    JNull
  | JBool bool
  | JNum jsstring
  | JStr jsstring
  | JArr "json list"
  | JObj "(jsstring \<times> json) list"

text \<open>
  A runtime value: \<^verbatim>\<open>undefined\<close>, JSON data, or a built-in function (named), which the
  program can only meet as an inherited property of a string.
\<close>

datatype jsval = Undefined | Json json | Builtin string

datatype error = TypeError | SyntaxError | TransportError

text \<open>
  How a call of an \<^verbatim>\<open>async\<close> method ends once it is awaited: with the value it returned, or
  with the exception that was thrown inside it (the promise is rejected). Nothing in the
  class catches an exception.
\<close>

datatype 'a outcome = Returned 'a | Threw error

definition own_property :: "(jsstring \<times> json) list \<Rightarrow> jsstring \<Rightarrow> json option" where
  "own_property kvs k = map_of (rev kvs) k"

text \<open>
  \<^verbatim>\<open>v[k]\<close> for the property names this program reads (\<^verbatim>\<open>data\<close>, \<^verbatim>\<open>node\<close>, \<^verbatim>\<open>snippet\<close>,
  \<^verbatim>\<open>fetch_id\<close>, \<^verbatim>\<open>link\<close>, \<^verbatim>\<open>title\<close>, ...). Reading a property of \<^verbatim>\<open>undefined\<close> or
  \<^verbatim>\<open>null\<close> throws a TypeError. None of the names is inherited from a prototype, except
  \<^verbatim>\<open>link\<close>, which every string inherits from \<^verbatim>\<open>String.prototype\<close>.
\<close>

fun get_prop :: "jsval \<Rightarrow> jsstring \<Rightarrow> error + jsval" where
  "get_prop Undefined k = Inl TypeError"
| "get_prop (Json JNull) k = Inl TypeError"
| "get_prop (Json (JObj kvs)) k =
     Inr (case own_property kvs k of Some v \<Rightarrow> Json v | None \<Rightarrow> Undefined)"
| "get_prop (Json (JStr s)) k =
     Inr (if k = u ''link'' then Builtin ''link'' else Undefined)"
| "get_prop v k = Inr Undefined"

text \<open>A chain \<^verbatim>\<open>v[k1][k2]...\<close>, read left to right.\<close>

fun get_path :: "jsval \<Rightarrow> jsstring list \<Rightarrow> error + jsval" where
  "get_path v [] = Inr v"
| "get_path v (k # ks) = (case get_prop v k of Inl e \<Rightarrow> Inl e | Inr w \<Rightarrow> get_path w ks)"

text \<open>
  \<^verbatim>\<open>ToString\<close>, as a template literal and \<^verbatim>\<open>URLSearchParams\<close> apply it. An array is joined
  with commas, \<^verbatim>\<open>null\<close> elements printing as nothing. A plain object prints as
  \<^verbatim>\<open>[object Object]\<close>, unless it has a member named \<^verbatim>\<open>toString\<close>: that member hides the
  inherited method and is not callable, and the conversion throws a TypeError. A built-in
  function prints as its native-code placeholder; no field of the session ever holds one.
\<close>

fun to_string_json :: "json \<Rightarrow> error + jsstring"
  and join_json :: "json list \<Rightarrow> error + jsstring" where
  "to_string_json JNull = Inr (u ''null'')"
| "to_string_json (JBool b) = Inr (if b then u ''true'' else u ''false'')"
| "to_string_json (JNum n) = Inr n"
| "to_string_json (JStr s) = Inr s"
| "to_string_json (JArr xs) = join_json xs"
| "to_string_json (JObj kvs) =
     (if own_property kvs (u ''toString'') \<noteq> None then Inl TypeError
      else Inr (u ''[object Object]''))"
| "join_json [] = Inr []"
| "join_json (x # xs) =
     (case (if x = JNull then Inr [] else to_string_json x) of
        Inl e \<Rightarrow> Inl e
      | Inr a \<Rightarrow>
          if xs = [] then Inr a
          else (case join_json xs of Inl e \<Rightarrow> Inl e | Inr b \<Rightarrow> Inr (a @ u '','' @ b)))"



section \<open>Strings: search, split and the four patterns of \<^verbatim>\<open>init\<close>\<close>

fun starts_with :: "jsstring \<Rightarrow> jsstring \<Rightarrow> bool" where
  "starts_with s [] = True"
| "starts_with [] (p # ps) = False"
| "starts_with (c # cs) (p # ps) = (c = p \<and> starts_with cs ps)"



text \<open>
  The regular expressions of \<^verbatim>\<open>init\<close> are sequences of literals and lazy \<^verbatim>\<open>.*?\<close>, one of
  them the capturing group. \<open>Dots True\<close> is \<^verbatim>\<open>(.*?)\<close>, \<open>Dots False\<close> is \<^verbatim>\<open>.*?\<close>.
  The dot matches any code unit but a line terminator.
\<close>

datatype rx = Lit jsstring | Dots bool

definition line_terminator :: "16 word \<Rightarrow> bool" where
  "line_terminator c = (c = 0x0A \<or> c = 0x0D \<or> c = 0x2028 \<or> c = 0x2029)"

text \<open>
  Backtracking match of a pattern at the start of \<open>s\<close>; \<open>cap\<close> is what the group has
  consumed so far. A lazy \<^verbatim>\<open>.*?\<close> first tries to go on with the rest of the pattern and
  consumes one more code unit only when that fails.
\<close>

fun match_here :: "rx list \<Rightarrow> jsstring \<Rightarrow> jsstring \<Rightarrow> jsstring option" where
  "match_here [] s cap = Some cap"
| "match_here (Lit l # ps) s cap =
     (if starts_with s l then match_here ps (drop (length l) s) cap else None)"
| "match_here (Dots g # ps) s cap =
     (case match_here ps s cap of
        Some r \<Rightarrow> Some r
      | None \<Rightarrow>
          (case s of
             [] \<Rightarrow> None
           | c # cs \<Rightarrow>
               if line_terminator c then None
               else match_here (Dots g # ps) cs (if g then cap @ [c] else cap)))"

text \<open>The leftmost match: every start position is tried in turn, the end of the string last.\<close>

fun regex_exec :: "rx list \<Rightarrow> jsstring \<Rightarrow> jsstring option" where
  "regex_exec ps [] = match_here ps [] []"
| "regex_exec ps (c # cs) =
     (case match_here ps (c # cs) [] of Some r \<Rightarrow> Some r | None \<Rightarrow> regex_exec ps cs)"

text \<open>
  \<^verbatim>\<open>v.match(re)[1]\<close>: a value that is not a string has no callable \<^verbatim>\<open>match\<close>, and a
  failed match yields \<^verbatim>\<open>null\<close>, whose index \<^verbatim>\<open>[1]\<close> cannot be read. Both throw a TypeError.
\<close>

definition match1 :: "jsval \<Rightarrow> rx list \<Rightarrow> error + jsstring" where
  "match1 v re =
     (case v of
        Json (JStr s) \<Rightarrow> (case regex_exec re s of None \<Rightarrow> Inl TypeError | Some g \<Rightarrow> Inr g)
      | _ \<Rightarrow> Inl TypeError)"

definition re_abra_csrf :: "rx list" where
  \<open>re_abra_csrf = [Lit (u ''abra_csrf":{"value":"''), Dots True, Lit (u ''"'')]\<close>

definition re_js_datr :: "rx list" where
  \<open>re_js_datr = [Lit (u ''_js_datr":{"value":"''), Dots True, Lit (u ''"'')]\<close>

definition re_datr :: "rx list" where
  \<open>re_datr = [Lit (u ''datr":{"value":"''), Dots True, Lit (u ''"'')]\<close>

definition re_lsd :: "rx list" where
  \<open>re_lsd = [Lit (u ''LSD''), Dots False, Lit (u ''token":"''), Dots True, Lit (u ''"'')]\<close>

text \<open>
  A code unit that the group \<^verbatim>\<open>(.*?)\<close> can take on its way to the closing double quote.
\<close>

definition value_char :: "16 word \<Rightarrow> bool" where
  "value_char c = (c \<noteq> 0x22 \<and> \<not> line_terminator c)"

section \<open>\<^verbatim>\<open>JSON.parse\<close>\<close>

text \<open>
  The JSON grammar of ECMA-404, as \<^verbatim>\<open>JSON.parse\<close> accepts it: optional white space around
  every token, no trailing comma, strings with the escapes \<^verbatim>\<open>\" \\ \/ \b \f \n \r \t\<close>
  and \<^verbatim>\<open>\uXXXX\<close> and no raw control character. The parsers work on the code units of the
  text and return the value together with the rest of the input; \<open>None\<close> is a syntax error.
\<close>

definition is_digit :: "16 word \<Rightarrow> bool" where
  "is_digit c = (0x30 \<le> c \<and> c \<le> 0x39)"

definition is_ws :: "16 word \<Rightarrow> bool" where
  "is_ws c = (c = 0x20 \<or> c = 0x09 \<or> c = 0x0A \<or> c = 0x0D)"

definition skip_ws :: "jsstring \<Rightarrow> jsstring" where
  "skip_ws s = dropWhile is_ws s"

definition hex_digit :: "16 word \<Rightarrow> 16 word option" where
  "hex_digit c =
     (if 0x30 \<le> c \<and> c \<le> 0x39 then Some (c - 0x30)
      else if 0x41 \<le> c \<and> c \<le> 0x46 then Some (c - 0x41 + 10)
      else if 0x61 \<le> c \<and> c \<le> 0x66 then Some (c - 0x61 + 10)
      else None)"

definition simple_escape :: "16 word \<Rightarrow> 16 word option" where
  "simple_escape c =
     (if c = 0x22 then Some 0x22
      else if c = 0x5C then Some 0x5C
      else if c = 0x2F then Some 0x2F
      else if c = 0x62 then Some 0x08
      else if c = 0x66 then Some 0x0C
      else if c = 0x6E then Some 0x0A
      else if c = 0x72 then Some 0x0D
      else if c = 0x74 then Some 0x09
      else None)"

definition hex4 :: "16 word \<Rightarrow> 16 word \<Rightarrow> 16 word \<Rightarrow> 16 word \<Rightarrow> 16 word option" where
  "hex4 h1 h2 h3 h4 =
     (case hex_digit h1 of None \<Rightarrow> None | Some a \<Rightarrow>
      case hex_digit h2 of None \<Rightarrow> None | Some b \<Rightarrow>
      case hex_digit h3 of None \<Rightarrow> None | Some c \<Rightarrow>
      case hex_digit h4 of None \<Rightarrow> None | Some d \<Rightarrow>
        Some (a * 0x1000 + b * 0x100 + c * 0x10 + d))"

fun parse_string_chars :: "jsstring \<Rightarrow> jsstring \<Rightarrow> (jsstring \<times> jsstring) option" where
  "parse_string_chars [] acc = None"
| "parse_string_chars (c # cs) acc =
     (if c = 0x22 then Some (acc, cs)
      else if c = 0x5C then
        (case cs of
           [] \<Rightarrow> None
         | e # es \<Rightarrow>
             if e = 0x75 then
               (case es of
                  h1 # h2 # h3 # h4 # r \<Rightarrow>
                    (case hex4 h1 h2 h3 h4 of
                       None \<Rightarrow> None
                     | Some w \<Rightarrow> parse_string_chars r (acc @ [w]))
                | _ \<Rightarrow> None)
             else
               (case simple_escape e of
                  None \<Rightarrow> None
                | Some w \<Rightarrow> parse_string_chars es (acc @ [w])))
      else if c < 0x20 then None
      else parse_string_chars cs (acc @ [c]))"

definition digits_of :: "jsstring \<Rightarrow> jsstring \<times> jsstring" where
  "digits_of s = (takeWhile is_digit s, dropWhile is_digit s)"

definition opt_minus :: "jsstring \<Rightarrow> jsstring \<times> jsstring" where
  "opt_minus s = (case s of [] \<Rightarrow> ([], s) | c # r \<Rightarrow> if c = 0x2D then ([c], r) else ([], s))"

definition parse_fraction :: "jsstring \<Rightarrow> (jsstring \<times> jsstring) option" where
  "parse_fraction s =
     (case s of
        [] \<Rightarrow> Some ([], s)
      | c # r \<Rightarrow>
          if c = 0x2E then
            (let (fp, s') = digits_of r in if fp = [] then None else Some (c # fp, s'))
          else Some ([], s))"

definition opt_sign :: "jsstring \<Rightarrow> jsstring \<times> jsstring" where
  "opt_sign s =
     (case s of [] \<Rightarrow> ([], s) | c # r \<Rightarrow> if c = 0x2B \<or> c = 0x2D then ([c], r) else ([], s))"

definition parse_exponent :: "jsstring \<Rightarrow> (jsstring \<times> jsstring) option" where
  "parse_exponent s =
     (case s of
        [] \<Rightarrow> Some ([], s)
      | c # r \<Rightarrow>
          if c = 0x65 \<or> c = 0x45 then
            (let (sg, r1) = opt_sign r; (ep, s') = digits_of r1
             in if ep = [] then None else Some (c # sg @ ep, s'))
          else Some ([], s))"

definition parse_number :: "jsstring \<Rightarrow> (jsstring \<times> jsstring) option" where
  "parse_number s =
     (let (sg, s1) = opt_minus s; (ip, s2) = digits_of s1
      in if ip = [] \<or> (length ip > 1 \<and> hd ip = 0x30) then None
         else
           (case parse_fraction s2 of
              None \<Rightarrow> None
            | Some (fp, s3) \<Rightarrow>
                (case parse_exponent s3 of
                   None \<Rightarrow> None
                 | Some (ep, s4) \<Rightarrow> Some (sg @ ip @ fp @ ep, s4))))"

lemma skip_ws_le: "length (skip_ws s) \<le> length s"
  by (simp add: skip_ws_def length_dropWhile_le)

lemma skip_ws_Cons_less: "skip_ws s = c # cs \<Longrightarrow> length cs < length s"
  using skip_ws_le[of s] by simp

lemma parse_string_chars_shorter:
  "parse_string_chars s acc = Some (str, r) \<Longrightarrow> length r < length s"
proof (induction s acc rule: parse_string_chars.induct)
  case (1 acc)
  then show ?case by simp
next
  case (2 c cs acc)
  show ?case
  proof (cases "c = 0x22")
    case True
    then show ?thesis using "2.prems" by simp
  next
    case q: False
    show ?thesis
    proof (cases "c = 0x5C")
      case False
      then have "parse_string_chars cs (acc @ [c]) = Some (str, r)"
        using "2.prems" q by (simp split: if_splits)
      moreover have "\<not> c < 0x20" using "2.prems" q False by (simp split: if_splits)
      ultimately show ?thesis using "2.IH"(3)[OF q False] by simp
    next
      case True
      then obtain e es where cs: "cs = e # es"
        using "2.prems" q by (cases cs) simp_all
      show ?thesis
      proof (cases "e = 0x75")
        case False
        then obtain w where w: "simple_escape e = Some w"
            "parse_string_chars es (acc @ [w]) = Some (str, r)"
          using "2.prems" q True cs by (simp split: option.splits)
        then show ?thesis using "2.IH"(2)[OF q True cs False w(1)] cs by simp
      next
        case uesc: True
        then obtain h1 h2 h3 h4 t w where es: "es = h1 # h2 # h3 # h4 # t"
            and w: "hex4 h1 h2 h3 h4 = Some w" "parse_string_chars t (acc @ [w]) = Some (str, r)"
          using "2.prems" q True cs by (simp split: list.splits option.splits)
        have "length r < length t"
          using "2.IH"(1)[OF q True cs uesc es refl refl refl w(1) w(2)] .
        then show ?thesis using cs es by simp
      qed
    qed
  qed
qed

text \<open>
  A value, the elements of an array after its opening bracket, and the members of an
  object after its opening brace. \<open>num\<close> gives the representation of the number that a
  numeric literal denotes (rounding to a double and printing it are the platform's). The
  tests \<open>length r < length s\<close> are there for the termination proof only: a successful
  parse always consumes input (lemma \<open>parse_shorter\<close> below), so they never fail.
\<close>

function parse_value :: "(jsstring \<Rightarrow> jsstring) \<Rightarrow> jsstring \<Rightarrow> (json \<times> jsstring) option"
  and parse_elements :: "(jsstring \<Rightarrow> jsstring) \<Rightarrow> jsstring \<Rightarrow> json list \<Rightarrow> (json \<times> jsstring) option"
  and parse_members :: "(jsstring \<Rightarrow> jsstring) \<Rightarrow> jsstring \<Rightarrow> (jsstring \<times> json) list \<Rightarrow> (json \<times> jsstring) option"
where
  "parse_value num s =
     (case skip_ws s of
        [] \<Rightarrow> None
      | c # cs \<Rightarrow>
          if c = 0x7B then
            (case skip_ws cs of
               [] \<Rightarrow> None
             | d # r \<Rightarrow> if d = 0x7D then Some (JObj [], r) else parse_members num cs [])
          else if c = 0x5B then
            (case skip_ws cs of
               [] \<Rightarrow> None
             | d # r \<Rightarrow> if d = 0x5D then Some (JArr [], r) else parse_elements num cs [])
          else if c = 0x22 then
            (case parse_string_chars cs [] of
               None \<Rightarrow> None
             | Some (str, r) \<Rightarrow> Some (JStr str, r))
          else if starts_with (c # cs) (u ''true'') then Some (JBool True, drop 4 (c # cs))
          else if starts_with (c # cs) (u ''false'') then Some (JBool False, drop 5 (c # cs))
          else if starts_with (c # cs) (u ''null'') then Some (JNull, drop 4 (c # cs))
          else
            (case parse_number (c # cs) of
               None \<Rightarrow> None
             | Some (n, r) \<Rightarrow> Some (JNum (num n), r)))"
| "parse_elements num s acc =
     (case parse_value num s of
        None \<Rightarrow> None
      | Some (v, r) \<Rightarrow>
          if length r < length s then
            (case skip_ws r of
               [] \<Rightarrow> None
             | c # cs \<Rightarrow>
                 if c = 0x2C then parse_elements num cs (acc @ [v])
                 else if c = 0x5D then Some (JArr (acc @ [v]), cs)
                 else None)
          else None)"
| "parse_members num s acc =
     (case skip_ws s of
        [] \<Rightarrow> None
      | c # cs \<Rightarrow>
          if c = 0x22 then
            (case parse_string_chars cs [] of
               None \<Rightarrow> None
             | Some (k, r) \<Rightarrow>
                 (case skip_ws r of
                    [] \<Rightarrow> None
                  | d # r2 \<Rightarrow>
                      if d = 0x3A then
                        (case parse_value num r2 of
                           None \<Rightarrow> None
                         | Some (v, r3) \<Rightarrow>
                             if length r3 < length r2 then
                               (case skip_ws r3 of
                                  [] \<Rightarrow> None
                                | e # r4 \<Rightarrow>
                                    if e = 0x2C then parse_members num r4 (acc @ [(k, v)])
                                    else if e = 0x7D then Some (JObj (acc @ [(k, v)]), r4)
                                    else None)
                             else None)
                      else None))
          else None)"
  by pat_completeness auto
termination
  apply (relation "measure (\<lambda>x. case x of
            Inl (num, s) \<Rightarrow> 2 * length s
          | Inr (Inl (num, s, acc)) \<Rightarrow> 2 * length s + 1
          | Inr (Inr (num, s, acc)) \<Rightarrow> 2 * length s + 1)")
  apply (auto dest!: skip_ws_Cons_less parse_string_chars_shorter)
  done

text \<open>\<^verbatim>\<open>JSON.parse(s)\<close>: one value, and nothing but white space after it.\<close>

definition JSON_parse :: "(jsstring \<Rightarrow> jsstring) \<Rightarrow> jsstring \<Rightarrow> error + json" where
  "JSON_parse num s =
     (case parse_value num s of
        None \<Rightarrow> Inl SyntaxError
      | Some (v, r) \<Rightarrow> if skip_ws r = [] then Inr v else Inl SyntaxError)"

section \<open>The threading identifier\<close>

text \<open>
  \<^verbatim>\<open>Math.random()\<close> is modelled by the stream \<open>rnd\<close> of the values it returns, read at
  a position that advances by one with every call. The product and \<^verbatim>\<open>Math.floor\<close> are taken
  over the reals.
\<close>

definition characters :: jsstring where
  "characters = u ''1234567890''"

text \<open>The inner loop \<^verbatim>\<open>for (let i = 0; i < 19; i++) result += characters.charAt(...)\<close>.\<close>

function for_digits :: "(nat \<Rightarrow> real) \<Rightarrow> nat \<Rightarrow> nat \<Rightarrow> jsstring \<Rightarrow> jsstring" where
  "for_digits rnd p i result =
     (if i < 19
      then for_digits rnd p (i + 1)
             (result @ charAt characters \<lfloor>rnd (p + i) * real (length characters)\<rfloor>)
      else result)"
  by pat_completeness auto
termination
  by (relation "measure (\<lambda>(rnd, p, i, result). 19 - i)") auto

declare for_digits.simps [simp del]

text \<open>
  The outer \<^verbatim>\<open>while (true)\<close> loop. It need not end, so the result is an option: \<open>None\<close>
  stands for a run that never returns. The second component is the position of the
  random stream after the call.
\<close>

partial_function (option) threadingID :: "(nat \<Rightarrow> real) \<Rightarrow> nat \<Rightarrow> (jsstring \<times> nat) option" where
  "threadingID rnd p =
     (let result = for_digits rnd p 0 [] in
      if charAt result 0 = u ''9'' \<or> charAt result 0 = u ''0''
      then threadingID rnd (p + 19)
      else Some (result, p + 19))"

text \<open>The \<open>k\<close>-th sample drawn by a call that starts at position \<open>p\<close>, and its rejection test.\<close>

definition sample :: "(nat \<Rightarrow> real) \<Rightarrow> nat \<Rightarrow> nat \<Rightarrow> jsstring" where
  "sample rnd p k = for_digits rnd (p + 19 * k) 0 []"

definition rejected :: "jsstring \<Rightarrow> bool" where
  "rejected result = (charAt result 0 = u ''9'' \<or> charAt result 0 = u ''0'')"

text \<open>The contract of \<^verbatim>\<open>Math.random()\<close>: every value is at least 0 and less than 1.\<close>

definition unit_interval :: "(nat \<Rightarrow> real) \<Rightarrow> bool" where
  "unit_interval rnd = (\<forall>i. 0 \<le> rnd i \<and> rnd i < 1)"

section \<open>The transport and the session\<close>

text \<open>
  The HTTP client is a parameter: a function from the request to what the awaited call
  yields, either a response (status and decoded body) or a rejection, which the awaiting
  code rethrows. A POST request carries the fields given to \<^verbatim>\<open>URLSearchParams\<close>, each
  already converted to a string; the percent-encoding of the body is the platform's.
\<close>

datatype request =
    Get jsstring "(jsstring \<times> jsstring) list"
  | Post jsstring "(jsstring \<times> jsstring) list" "(jsstring \<times> jsstring) list"

text \<open>A field of the form body of a request.\<close>

fun request_field :: "request \<Rightarrow> jsstring \<Rightarrow> jsstring option" where
  "request_field (Get url headers) k = None"
| "request_field (Post url body headers) k = map_of body k"

record response =
  status :: int
  data :: jsval

datatype transport_result = Resolved response | Rejected

type_synonym transport = "request \<Rightarrow> transport_result"

text \<open>
  The fields of class \<^verbatim>\<open>MetaAI\<close>. \<^verbatim>\<open>access_token\<close> and \<^verbatim>\<open>last_fetch_id\<close> are assigned
  from response data without a check, so at run time they hold whatever the response held.
\<close>

record MetaAI =
  access_token :: jsval
  cookies :: jsstring
  lsd :: jsstring
  conversation_id :: jsstring
  last_fetch_id :: jsval

text \<open>The constructor; \<open>uuid\<close> is the value of \<^verbatim>\<open>uuidv4()\<close>.\<close>

definition new_MetaAI :: "jsstring \<Rightarrow> MetaAI" where
  "new_MetaAI uuid =
     \<lparr>access_token = Json (JStr []), cookies = [], lsd = [],
      conversation_id = uuid, last_fetch_id = Json (JStr [])\<rparr>"

definition user_agent :: jsstring where
  "user_agent = u ''Mozilla/5.0 (X11; Linux x86_64) AppleWebKit/537.36 (KHTML, like Gecko) Chrome/124.0.0.0 Safari/537.36''"

text \<open>The value \<^verbatim>\<open>false\<close>, which \<^verbatim>\<open>prompt\<close> returns when it gives up.\<close>

definition false :: jsval where
  "false = Json (JBool False)"

subsection \<open>\<^verbatim>\<open>init\<close>\<close>

definition init_headers :: "(jsstring \<times> jsstring) list" where
  "init_headers =
     [(u ''user-agent'', user_agent),
      (u ''accept-language'', u ''en-US,en;q=0.9''),
      (u ''accept'', u ''text/html,application/xhtml+xml,application/xml;q=0.9,image/avif,image/webp,image/apng,*/*;q=0.8,application/signed-exchange;v=b3;q=0.7''),
      (u ''sec-fetch-mode'', u ''navigate'')]"

text \<open>
  Lines 63 to 89. The four captures are taken in the order of the source; each can throw,
  and the two fields are assigned only after all four have succeeded.
\<close>

definition init_request :: request where
  "init_request = Get (u ''https://meta.ai/'') init_headers"

definition init :: "transport \<Rightarrow> MetaAI \<Rightarrow> bool outcome \<times> MetaAI" where
  "init net s =
     (case net init_request of
        Rejected \<Rightarrow> (Threw TransportError, s)
      | Resolved response \<Rightarrow>
          if status response \<noteq> 200 then (Returned False, s)
          else
            (case match1 (data response) re_abra_csrf of Inl e \<Rightarrow> (Threw e, s) | Inr abra_csrf \<Rightarrow>
             case match1 (data response) re_js_datr of Inl e \<Rightarrow> (Threw e, s) | Inr js_datr \<Rightarrow>
             case match1 (data response) re_datr of Inl e \<Rightarrow> (Threw e, s) | Inr datr \<Rightarrow>
             case match1 (data response) re_lsd of Inl e \<Rightarrow> (Threw e, s) | Inr lsd_token \<Rightarrow>
               (Returned True,
                s\<lparr>cookies := u ''_js_datr='' @ js_datr @ u ''; abra_csrf='' @ abra_csrf
                               @ u ''; datr='' @ datr @ u ''; lsd='' @ lsd_token,
                  lsd := lsd_token\<rparr>)))"

subsection \<open>\<^verbatim>\<open>set_access_token\<close>\<close>






subsection \<open>\<^verbatim>\<open>prompt\<close>\<close>

definition graph_headers :: "jsstring \<Rightarrow> jsstring \<Rightarrow> (jsstring \<times> jsstring) list" where
  "graph_headers cookie friendly_name =
     [(u ''cookie'', cookie),
      (u ''accept'', u ''*/*''),
      (u ''referer'', u ''https://www.meta.ai/''),
      (u ''accept-language'', u ''en-US,en;q=0.9''),
      (u ''content-type'', u ''application/x-www-form-urlencoded''),
      (u ''user-agent'', user_agent),
      (u ''origin'', u ''https://www.meta.ai''),
      (u ''priority'', u ''u=1, i''),
      (u ''x-fb-friendly-name'', friendly_name)]"

text \<open>
  The template literal of the \<^verbatim>\<open>variables\<close> field: the message, the conversation id and
  the threading id are spliced into the text as they are.
\<close>

definition prompt_variables :: "jsstring \<Rightarrow> jsstring \<Rightarrow> jsstring \<Rightarrow> jsstring" where
  \<open>prompt_variables message conv tid =
     u ''{"message":{"sensitive_string_value":"'' @ message
     @ u ''"},"externalConversationId":"'' @ conv
     @ u ''","offlineThreadingId":"'' @ tid
     @ u ''","suggestedPromptIndex":null,"flashVideoRecapInput":{"images":[]},"flashPreviewInput":null,"promptPrefix":null,"entrypoint":"ABRA__CHAT__TEXT","icebreaker_type":"TEXT","__relay_internal__pv__AbraDebugDevOnlyrelayprovider":false,"__relay_internal__pv__WebPixelRatiorelayprovider":1}''\<close>

definition prompt_body :: "jsstring \<Rightarrow> jsstring \<Rightarrow> jsstring \<Rightarrow> (jsstring \<times> jsstring) list" where
  "prompt_body tok lsd_token variables =
     [(u ''access_token'', tok),
      (u ''dpr'', u ''1''),
      (u ''lsd'', lsd_token),
      (u ''jazoest'', u ''2925''),
      (u ''fb_api_caller_class'', u ''useAbraSendMessageMutation''),
      (u ''server_timestamps'', u ''true''),
      (u ''doc_id'', u ''7783822248314888''),
      (u ''variables'', variables)]"



definition message_path :: "jsstring list" where
  "message_path = [u ''data'', u ''node'', u ''bot_response_message'']"

text \<open>
  Lines 217 to 225: the selected fragment is parsed, the reply and the fetch identifier
  are read from it, and only then is \<^verbatim>\<open>last_fetch_id\<close> assigned. \<open>num\<close> gives the
  representation of the number that a numeric literal denotes (rounding to a double and
  printing it are the platform's).
\<close>

definition parse_reply ::
  "(jsstring \<Rightarrow> jsstring) \<Rightarrow> jsstring \<Rightarrow> MetaAI \<Rightarrow> jsval outcome \<times> MetaAI" where
  "parse_reply num llm_done s =
     (case JSON_parse num llm_done of
        Inl e \<Rightarrow> (Threw e, s)
      | Inr json_resp \<Rightarrow>
          (case get_path (Json json_resp) (message_path @ [u ''snippet'']) of
             Inl e \<Rightarrow> (Threw e, s)
           | Inr llm_response \<Rightarrow>
               (case get_path (Json json_resp) (message_path @ [u ''fetch_id'']) of
                  Inl e \<Rightarrow> (Threw e, s)
                | Inr fid \<Rightarrow> (Returned llm_response, s\<lparr>last_fetch_id := fid\<rparr>))))"


text \<open>The request of lines 170 to 201, for an access token already converted to a string.\<close>

definition chat_request :: "jsstring \<Rightarrow> jsstring \<Rightarrow> jsstring \<Rightarrow> MetaAI \<Rightarrow> request" where
  "chat_request tok message tid s =
     Post (u ''https://graph.meta.ai/graphql?locale=user'')
       (prompt_body tok (lsd s) (prompt_variables message (conversation_id s) tid))
       (graph_headers (cookies s) (u ''useAbraSendMessageMutation''))"




subsection \<open>\<^verbatim>\<open>sources\<close>\<close>












section \<open>The JSON text of the \<^verbatim>\<open>variables\<close> field\<close>

text \<open>
  A code unit that may stand for itself inside a JSON string: not the double quote, not
  the backslash, not a control character below U+0020.
\<close>

definition plain_char :: "16 word \<Rightarrow> bool" where
  "plain_char c = (c \<noteq> 0x22 \<and> c \<noteq> 0x5C \<and> \<not> c < 0x20)"

text \<open>The document that the template of \<^verbatim>\<open>prompt\<close> is meant to denote.\<close>

definition variables_json :: "(jsstring \<Rightarrow> jsstring) \<Rightarrow> jsstring \<Rightarrow> jsstring \<Rightarrow> jsstring \<Rightarrow> json" where
  "variables_json num message conv tid =
     JObj [(u ''message'', JObj [(u ''sensitive_string_value'', JStr message)]),
           (u ''externalConversationId'', JStr conv),
           (u ''offlineThreadingId'', JStr tid),
           (u ''suggestedPromptIndex'', JNull),
           (u ''flashVideoRecapInput'', JObj [(u ''images'', JArr [])]),
           (u ''flashPreviewInput'', JNull),
           (u ''promptPrefix'', JNull),
           (u ''entrypoint'', JStr (u ''ABRA__CHAT__TEXT'')),
           (u ''icebreaker_type'', JStr (u ''TEXT'')),
           (u ''__relay_internal__pv__AbraDebugDevOnlyrelayprovider'', JBool False),
           (u ''__relay_internal__pv__WebPixelRatiorelayprovider'', JNum (num (u ''1'')))]"

section \<open>Example responses\<close>

text \<open>
  Concrete responses, transports and sessions, for evaluating the operations. A landing
  page with the four markers (the plain \<^verbatim>\<open>datr\<close> cookie comes first, since its pattern
  also matches inside \<^verbatim>\<open>_js_datr\<close>), the same page with an empty anti-forgery token, a
  token response, a sources response, and a chat response of five fragments of which only
  the third has the completion marker.
\<close>

definition example_page :: jsstring where
  \<open>example_page = u ''<html>{"abra_csrf":{"value":"A1"},"datr":{"value":"D3"},"_js_datr":{"value":"J2"}} ["LSD",[],{"token":"L4"},323]</html>''\<close>

definition example_page_empty_lsd :: jsstring where
  \<open>example_page_empty_lsd = u ''{"abra_csrf":{"value":"A1"},"datr":{"value":"D3"},"_js_datr":{"value":"J2"}} ["LSD",[],{"token":""},323]''\<close>

definition example_token :: jsval where
  "example_token =
     Json (JObj [(u ''data'', JObj [(u ''xab_abra_accept_terms_of_service'',
       JObj [(u ''new_temp_user_auth'', JObj [(u ''access_token'', JStr (u ''T5''))])])])])"



text \<open>
  Transports. Status 204 stands for any status other than 200 that the client hands to
  the caller. \<open>chat_fails\<close> and \<open>empty_lsd_net\<close> serve the page and the token and answer
  every other request with 204; \<open>empty_id_only\<close> answers only the sources lookup that
  carries the empty fetch identifier.
\<close>

definition page_ok :: transport where
  "page_ok req = Resolved \<lparr>status = 200, data = Json (JStr example_page)\<rparr>"



definition empty_lsd_net :: transport where
  "empty_lsd_net req =
     (case req of
        Get url headers \<Rightarrow> Resolved \<lparr>status = 200, data = Json (JStr example_page_empty_lsd)\<rparr>
      | Post url body headers \<Rightarrow>
          if url = u ''https://www.meta.ai/api/graphql/''
          then Resolved \<lparr>status = 200, data = example_token\<rparr>
          else Resolved \<lparr>status = 204, data = Undefined\<rparr>)"










text \<open>
  Random streams: one whose every draw selects the digit 6, and one whose first 19 draws
  select the digit 0 and all later ones the digit 6.
\<close>

definition always_half :: "nat \<Rightarrow> real" where
  "always_half i = 1 / 2"


section \<open>The progress of a \<^verbatim>\<open>prompt\<close> call\<close>



section \<open>Sequences of calls\<close>





section \<open>The parsers consume their input\<close>

text \<open>
  Every successful parse returns a strictly shorter rest, so the length tests in
  \<open>parse_elements\<close> and \<open>parse_members\<close>, which justify their recursion, never fail.
\<close>

declare parse_value.simps [simp del] parse_elements.simps [simp del] parse_members.simps [simp del]

lemma opt_minus_le: "opt_minus s = (sg, s1) \<Longrightarrow> length s1 \<le> length s"
  by (auto simp: opt_minus_def split: list.splits if_splits)

lemma opt_sign_le: "opt_sign s = (sg, s1) \<Longrightarrow> length s1 \<le> length s"
  by (auto simp: opt_sign_def split: list.splits if_splits)

lemma digits_of_length: "digits_of s = (ds, r) \<Longrightarrow> length ds + length r = length s"
proof -
  assume "digits_of s = (ds, r)"
  then have "ds @ r = s" by (auto simp: digits_of_def)
  then show ?thesis by (metis length_append)
qed

lemma parse_fraction_le: "parse_fraction s = Some (fp, r) \<Longrightarrow> length r \<le> length s"
  by (cases s) (auto simp: parse_fraction_def Let_def split: if_splits prod.splits dest!: digits_of_length)

lemma parse_exponent_le: "parse_exponent s = Some (ep, r) \<Longrightarrow> length r \<le> length s"
  by (cases s)
     (auto simp: parse_exponent_def Let_def split: if_splits prod.splits
           dest!: digits_of_length opt_sign_le)

lemma parse_number_shorter:
  assumes "parse_number s = Some (n, r)"
  shows "length r < length s"
proof -
  obtain sg s1 where m: "opt_minus s = (sg, s1)" by (cases "opt_minus s")
  obtain ip s2 where d: "digits_of s1 = (ip, s2)" by (cases "digits_of s1")
  have ne: "ip \<noteq> []" using assms m d by (auto simp: parse_number_def split: if_splits)
  obtain fp s3 where f: "parse_fraction s2 = Some (fp, s3)"
    using assms m d by (auto simp: parse_number_def split: if_splits option.splits)
  have e: "\<exists>ep. parse_exponent s3 = Some (ep, r)"
    using assms m d f by (auto simp: parse_number_def split: if_splits option.splits)
  then obtain ep where e: "parse_exponent s3 = Some (ep, r)" by blast
  have "length s2 < length s1" using digits_of_length[OF d] ne by (cases ip) auto
  then show ?thesis
    using opt_minus_le[OF m] parse_fraction_le[OF f] parse_exponent_le[OF e] by linarith
qed

lemma starts_with_length: "starts_with s p \<Longrightarrow> length p \<le> length s"
  by (induction s p rule: starts_with.induct) auto

lemma parse_shorter:
  "\<forall>v r. parse_value num s = Some (v, r) \<longrightarrow> length r < length s"
  "\<forall>v r. parse_elements num s1 acc1 = Some (v, r) \<longrightarrow> length r < length s1"
  "\<forall>v r. parse_members num s2 acc2 = Some (v, r) \<longrightarrow> length r < length s2"
proof (induction num s and num s1 acc1 and num s2 acc2
       rule: parse_value_parse_elements_parse_members.induct)
  case (1 num s)
  show ?case
  proof (intro allI impI)
    fix v r
    assume a: "parse_value num s = Some (v, r)"
    show "length r < length s"
    proof (cases "skip_ws s")
      case Nil
      then show ?thesis using a by (subst (asm) parse_value.simps) simp
    next
      case (Cons c cs)
      note lt = skip_ws_Cons_less[OF Cons]
      have a': "(if c = 0x7B then
            (case skip_ws cs of
               [] \<Rightarrow> None
             | d # r \<Rightarrow> if d = 0x7D then Some (JObj [], r) else parse_members num cs [])
          else if c = 0x5B then
            (case skip_ws cs of
               [] \<Rightarrow> None
             | d # r \<Rightarrow> if d = 0x5D then Some (JArr [], r) else parse_elements num cs [])
          else if c = 0x22 then
            (case parse_string_chars cs [] of
               None \<Rightarrow> None
             | Some (str, r) \<Rightarrow> Some (JStr str, r))
          else if starts_with (c # cs) (u ''true'') then Some (JBool True, drop 4 (c # cs))
          else if starts_with (c # cs) (u ''false'') then Some (JBool False, drop 5 (c # cs))
          else if starts_with (c # cs) (u ''null'') then Some (JNull, drop 4 (c # cs))
          else
            (case parse_number (c # cs) of
               None \<Rightarrow> None
             | Some (n, r) \<Rightarrow> Some (JNum (num n), r))) = Some (v, r)"
        using a Cons by (subst (asm) parse_value.simps) simp
      show ?thesis
      proof (cases "c = 0x7B")
        case True
        then obtain d r' where cs: "skip_ws cs = d # r'"
          using a' by (cases "skip_ws cs") auto
        show ?thesis
        proof (cases "d = 0x7D")
          case d: True
          then have "r = r'" using a' True cs by simp
          then show ?thesis using skip_ws_Cons_less[OF cs] lt by simp
        next
          case d: False
          then have "parse_members num cs [] = Some (v, r)" using a' True cs by simp
          then have "length r < length cs" using "1.IH"(1)[OF Cons True cs d] by blast
          then show ?thesis using lt by simp
        qed
      next
        case nobj: False
        show ?thesis
        proof (cases "c = 0x5B")
          case True
          then obtain d r' where cs: "skip_ws cs = d # r'"
            using a' nobj by (cases "skip_ws cs") auto
          show ?thesis
          proof (cases "d = 0x5D")
            case d: True
            then have "r = r'" using a' nobj True cs by simp
            then show ?thesis using skip_ws_Cons_less[OF cs] lt by simp
          next
            case d: False
            then have "parse_elements num cs [] = Some (v, r)" using a' nobj True cs by simp
            then have "length r < length cs" using "1.IH"(2)[OF Cons nobj True cs d] by blast
            then show ?thesis using lt by simp
          qed
        next
          case narr: False
          have le: "length (c # cs) \<le> length s" using lt by simp
          have "length r < length (c # cs)"
          proof (cases "c = 0x22")
            case True
            then show ?thesis using a' nobj narr
              by (auto split: option.splits dest!: parse_string_chars_shorter)
          next
            case False
            then show ?thesis using a' nobj narr
              by (auto split: if_splits option.splits
                       dest!: parse_number_shorter starts_with_length simp: u_def)
          qed
          then show ?thesis using le by simp
        qed
      qed
    qed
  qed
next
  case (2 num s acc)
  show ?case
  proof (intro allI impI)
    fix v r
    assume a: "parse_elements num s acc = Some (v, r)"
    then obtain w r1 where pv: "parse_value num s = Some (w, r1)"
      by (subst (asm) parse_elements.simps) (auto split: option.splits)
    have r1: "length r1 < length s" using "2.IH"(1) pv by blast
    obtain c cs where sk: "skip_ws r1 = c # cs"
      using a pv r1 by (subst (asm) parse_elements.simps) (auto split: list.splits)
    note lt = skip_ws_Cons_less[OF sk]
    show "length r < length s"
    proof (cases "c = 0x2C")
      case True
      then have "parse_elements num cs (acc @ [w]) = Some (v, r)"
        using a pv r1 sk by (subst (asm) parse_elements.simps) simp
      then have "length r < length cs"
        using "2.IH"(2)[OF pv _ r1 sk True] by auto
      then show ?thesis using lt r1 by simp
    next
      case False
      then have "r = cs"
        using a pv r1 sk by (subst (asm) parse_elements.simps) (auto split: if_splits)
      then show ?thesis using lt r1 by simp
    qed
  qed
next
  case (3 num s acc)
  show ?case
  proof (intro allI impI)
    fix v r
    assume a: "parse_members num s acc = Some (v, r)"
    then obtain c cs where sk: "skip_ws s = c # cs"
      by (subst (asm) parse_members.simps) (auto split: list.splits)
    have q: "c = 0x22"
      using a sk by (subst (asm) parse_members.simps) (auto split: if_splits)
    obtain k r1 where ps: "parse_string_chars cs [] = Some (k, r1)"
      using a sk q by (subst (asm) parse_members.simps) (auto split: option.splits)
    obtain d r2 where sk2: "skip_ws r1 = d # r2"
      using a sk q ps by (subst (asm) parse_members.simps) (auto split: list.splits)
    have col: "d = 0x3A"
      using a sk q ps sk2 by (subst (asm) parse_members.simps) (auto split: if_splits)
    obtain w r3 where pv: "parse_value num r2 = Some (w, r3)"
      using a sk q ps sk2 col by (subst (asm) parse_members.simps) (auto split: option.splits)
    have r3: "length r3 < length r2"
      using "3.IH"(1)[OF sk q _ _ sk2 col] ps pv by auto
    obtain e r4 where sk3: "skip_ws r3 = e # r4"
      using a sk q ps sk2 col pv r3
      by (subst (asm) parse_members.simps) (auto split: list.splits)
    have chain: "length r4 < length s"
      using skip_ws_Cons_less[OF sk] parse_string_chars_shorter[OF ps] skip_ws_Cons_less[OF sk2]
        r3 skip_ws_Cons_less[OF sk3] by linarith
    show "length r < length s"
    proof (cases "e = 0x2C")
      case True
      then have "parse_members num r4 (acc @ [(k, w)]) = Some (v, r)"
        using a sk q ps sk2 col pv r3 sk3 by (subst (asm) parse_members.simps) simp
      then have "length r < length r4"
        using "3.IH"(2)[OF sk q _ _ sk2 col _ _ r3 sk3 True] ps pv by auto
      then show ?thesis using chain by simp
    next
      case False
      then have "r = r4"
        using a sk q ps sk2 col pv r3 sk3
        by (subst (asm) parse_members.simps) (auto split: if_splits)
      then show ?thesis using chain by simp
    qed
  qed
qed

lemma parse_elements_unfold:
  "parse_elements num s acc =
     (case parse_value num s of
        None \<Rightarrow> None
      | Some (v, r) \<Rightarrow>
          (case skip_ws r of
             [] \<Rightarrow> None
           | c # cs \<Rightarrow>
               if c = 0x2C then parse_elements num cs (acc @ [v])
               else if c = 0x5D then Some (JArr (acc @ [v]), cs)
               else None))"
  using parse_shorter(1)[of num s]
  by (subst parse_elements.simps) (auto split: option.splits)

lemma parse_members_unfold:
  "parse_members num s acc =
     (case skip_ws s of
        [] \<Rightarrow> None
      | c # cs \<Rightarrow>
          if c = 0x22 then
            (case parse_string_chars cs [] of
               None \<Rightarrow> None
             | Some (k, r) \<Rightarrow>
                 (case skip_ws r of
                    [] \<Rightarrow> None
                  | d # r2 \<Rightarrow>
                      if d = 0x3A then
                        (case parse_value num r2 of
                           None \<Rightarrow> None
                         | Some (v, r3) \<Rightarrow>
                             (case skip_ws r3 of
                                [] \<Rightarrow> None
                              | e # r4 \<Rightarrow>
                                  if e = 0x2C then parse_members num r4 (acc @ [(k, v)])
                                  else if e = 0x7D then Some (JObj (acc @ [(k, v)]), r4)
                                  else None))
                      else None))
          else None)"
  using parse_shorter(1)[of num]
  by (subst parse_members.simps) (auto split: option.splits list.splits)

lemma parse_string_chars_plain:
  "list_all plain_char str \<Longrightarrow>
   parse_string_chars (str @ 0x22 # rest) acc = Some (acc @ str, rest)"
  by (induction str arbitrary: acc) (simp_all add: plain_char_def)

lemma is_digit_plain: "is_digit c \<Longrightarrow> plain_char c"
  by (auto simp: is_digit_def plain_char_def word_le_def word_less_def)

lemmas json_eval = JSON_parse_def skip_ws_def is_ws_def parse_number_def opt_minus_def
  digits_of_def is_digit_def parse_fraction_def parse_exponent_def opt_sign_def
  parse_value.simps parse_elements_unfold parse_members_unfold

lemma parse_prompt_variables:
  assumes "list_all plain_char message" "list_all plain_char conv" "list_all plain_char tid"
  shows "JSON_parse num (prompt_variables message conv tid) = Inr (variables_json num message conv tid)"
  using assms
  by (simp add: prompt_variables_def variables_json_def u_def json_eval parse_string_chars_plain)

section \<open>Properties of the threading identifier\<close>

lemma characters_val: "characters = [0x31,0x32,0x33,0x34,0x35,0x36,0x37,0x38,0x39,0x30]"
  by (simp add: characters_def u_def)

lemma charAt_characters:
  assumes "0 \<le> r" "r < 1"
  shows "\<exists>c. charAt characters \<lfloor>r * real (length characters)\<rfloor> = [c] \<and> is_digit c"
proof -
  have len: "length characters = 10" by (simp add: characters_val)
  have lo: "0 \<le> \<lfloor>r * 10\<rfloor>" using assms by simp
  have hi: "\<lfloor>r * 10\<rfloor> < 10" using assms by (simp add: floor_less_iff)
  have "list_all is_digit characters"
    by (simp add: characters_val is_digit_def)
  moreover have "nat \<lfloor>r * 10\<rfloor> < 10" using lo hi by linarith
  then have "nat \<lfloor>r * 10\<rfloor> < length characters" by (simp only: len)
  ultimately have "is_digit (characters ! nat \<lfloor>r * 10\<rfloor>)"
    by (simp only: list_all_length)
  then show ?thesis using lo hi len by (simp add: charAt_def)
qed

lemma for_digits_shape:
  assumes "unit_interval rnd" "i \<le> 19"
  shows "\<exists>ds. for_digits rnd p i result = result @ ds \<and> length ds = 19 - i \<and> (\<forall>c\<in>set ds. is_digit c)"
  using assms
proof (induction rnd p i result rule: for_digits.induct)
  case (1 rnd p i result)
  show ?case
  proof (cases "i < 19")
    case True
    obtain c where c: "charAt characters \<lfloor>rnd (p + i) * real (length characters)\<rfloor> = [c]" "is_digit c"
      using charAt_characters[of "rnd (p + i)"] "1.prems"(1) by (auto simp: unit_interval_def)
    from "1.IH"[OF True "1.prems"(1)] True
    obtain ds where ds: "for_digits rnd p (i + 1) (result @ [c]) = (result @ [c]) @ ds"
        "length ds = 19 - (i + 1)" "\<forall>c\<in>set ds. is_digit c"
      using c by auto
    have "for_digits rnd p i result = result @ (c # ds)"
      using True c ds by (subst for_digits.simps) simp
    moreover have "length (c # ds) = 19 - i" using ds True by simp
    moreover have "\<forall>x\<in>set (c # ds). is_digit x" using ds c by simp
    ultimately show ?thesis by blast
  next
    case False
    then have "i = 19" using "1.prems" by simp
    then show ?thesis by (subst for_digits.simps) simp
  qed
qed

lemma sample_shape:
  assumes "unit_interval rnd"
  shows "length (sample rnd p k) = 19 \<and> (\<forall>c\<in>set (sample rnd p k). is_digit c)"
  using for_digits_shape[OF assms, of 0 "p + 19 * k" "[]"] by (auto simp: sample_def)


lemma threadingID_returns_sample:
  assumes ret: "threadingID rnd p = Some y"
  shows "\<exists>k. y = (sample rnd p k, p + 19 * (k + 1)) \<and> \<not> rejected (sample rnd p k)
             \<and> (\<forall>j<k. rejected (sample rnd p j))"
proof (rule threadingID.raw_induct[where P = "\<lambda>rnd p y. \<exists>k. y = (sample rnd p k, p + 19 * (k + 1))
          \<and> \<not> rejected (sample rnd p k) \<and> (\<forall>j<k. rejected (sample rnd p j))", OF _ ret], goal_cases)
  case (1 f rnd p y)
  show ?case
  proof (cases "rejected (for_digits rnd p 0 [])")
    case False
    then have "y = (sample rnd p 0, p + 19 * (0 + 1))" "\<not> rejected (sample rnd p 0)"
      using 1(2) by (auto simp: rejected_def sample_def Let_def)
    then show ?thesis by blast
  next
    case True
    then have "f rnd (p + 19) = Some y"
      using 1(2) by (auto simp: rejected_def Let_def)
    from 1(1)[OF this] obtain k where k: "y = (sample rnd (p + 19) k, p + 19 + 19 * (k + 1))"
        "\<not> rejected (sample rnd (p + 19) k)" "\<forall>j<k. rejected (sample rnd (p + 19) j)"
      by blast
    have shift: "sample rnd (p + 19) j = sample rnd p (Suc j)" for j
      by (simp add: sample_def add.assoc add.commute)
    have "\<forall>j<Suc k. rejected (sample rnd p j)"
    proof (intro allI impI)
      fix j assume "j < Suc k"
      show "rejected (sample rnd p j)"
      proof (cases j)
        case 0
        then show ?thesis using True by (simp add: sample_def)
      next
        case (Suc i)
        then have "rejected (sample rnd (p + 19) i)" using k(3) \<open>j < Suc k\<close> by simp
        then show ?thesis using Suc by (simp only: shift)
      qed
    qed
    then show ?thesis using k(1,2) by (intro exI[of _ "Suc k"]) (simp add: shift)
  qed
qed




section \<open>\<^verbatim>\<open>init\<close>\<close>

lemmas rx_defs = match1_def re_abra_csrf_def re_js_datr_def re_datr_def re_lsd_def line_terminator_def

lemma example_page_matches:
  "match1 (Json (JStr example_page)) re_abra_csrf = Inr (u ''A1'')"
  "match1 (Json (JStr example_page)) re_js_datr = Inr (u ''J2'')"
  "match1 (Json (JStr example_page)) re_datr = Inr (u ''D3'')"
  "match1 (Json (JStr example_page)) re_lsd = Inr (u ''L4'')"
  by (simp_all add: example_page_def rx_defs u_def)

lemma example_page_empty_lsd_matches:
  "match1 (Json (JStr example_page_empty_lsd)) re_abra_csrf = Inr (u ''A1'')"
  "match1 (Json (JStr example_page_empty_lsd)) re_js_datr = Inr (u ''J2'')"
  "match1 (Json (JStr example_page_empty_lsd)) re_datr = Inr (u ''D3'')"
  "match1 (Json (JStr example_page_empty_lsd)) re_lsd = Inr []"
  by (simp_all add: example_page_empty_lsd_def rx_defs u_def)

lemma starts_with_append: "starts_with (m @ s) m"
  by (induction m) auto

lemma match_here_value:
  "list_all value_char v \<Longrightarrow>
   match_here [Dots True, Lit [0x22]] (v @ 0x22 # rest) cap = Some (cap @ v)"
  by (induction v arbitrary: cap) (auto simp: value_char_def)

lemma match_here_marker:
  "list_all value_char v \<Longrightarrow>
   match_here [Lit m, Dots True, Lit [0x22]] (m @ v @ 0x22 # rest) [] = Some v"
  using match_here_value[of v rest "[]"] by (simp add: starts_with_append)

lemma regex_exec_skip:
  "\<forall>i<length pre. match_here ps (drop i (pre @ s)) [] = None \<Longrightarrow>
   regex_exec ps (pre @ s) = regex_exec ps s"
proof (induction pre)
  case Nil
  then show ?case by simp
next
  case (Cons c pre)
  have "match_here ps (drop 0 ((c # pre) @ s)) [] = None" using Cons.prems by blast
  then have h: "match_here ps (c # pre @ s) [] = None" by simp
  have "\<forall>i<length pre. match_here ps (drop i (pre @ s)) [] = None"
  proof (intro allI impI)
    fix i assume "i < length pre"
    then have "match_here ps (drop (Suc i) ((c # pre) @ s)) [] = None"
      using Cons.prems by (metis Suc_less_eq length_Cons)
    then show "match_here ps (drop i (pre @ s)) [] = None" by simp
  qed
  then show ?case using Cons.IH h by simp
qed

lemma regex_exec_here:
  "match_here ps s [] = Some g \<Longrightarrow> regex_exec ps s = Some g"
  by (cases s) auto

lemma regex_exec_marker:
  assumes "list_all value_char v"
    and "\<forall>i<length pre. \<not> starts_with (drop i (pre @ m @ v @ 0x22 # rest)) m"
  shows "regex_exec [Lit m, Dots True, Lit [0x22]] (pre @ m @ v @ 0x22 # rest) = Some v"
proof -
  have "\<forall>i<length pre.
          match_here [Lit m, Dots True, Lit [0x22]] (drop i (pre @ m @ v @ 0x22 # rest)) [] = None"
    using assms(2) by simp
  then have "regex_exec [Lit m, Dots True, Lit [0x22]] (pre @ m @ v @ 0x22 # rest)
             = regex_exec [Lit m, Dots True, Lit [0x22]] (m @ v @ 0x22 # rest)"
    by (rule regex_exec_skip)
  then show ?thesis
    using regex_exec_here[OF match_here_marker[OF assms(1), of m rest]] by simp
qed

lemma cookie_patterns:
  \<open>re_abra_csrf = [Lit (u ''abra_csrf":{"value":"''), Dots True, Lit [0x22]]\<close>
  \<open>re_js_datr = [Lit (u ''_js_datr":{"value":"''), Dots True, Lit [0x22]]\<close>
  \<open>re_datr = [Lit (u ''datr":{"value":"''), Dots True, Lit [0x22]]\<close>
  by (simp_all add: re_abra_csrf_def re_js_datr_def re_datr_def u_def)

lemma ex_split:
  \<open>example_page = u ''<html>{"'' @ u ''abra_csrf":{"value":"'' @ u ''A1'' @ 0x22 # u ''},"datr":{"value":"D3"},"_js_datr":{"value":"J2"}} ["LSD",[],{"token":"L4"},323]</html>''\<close>
  by (simp add: example_page_def u_def)

lemma ex_first:
  \<open>\<forall>i<length (u ''<html>{"''). \<not> starts_with (drop i example_page) (u ''abra_csrf":{"value":"'')\<close>
proof -
  have \<open>list_all (\<lambda>i. \<not> starts_with (drop i example_page) (u ''abra_csrf":{"value":"'')) [0..<8]\<close>
    by (simp add: example_page_def u_def upt_rec)
  then show ?thesis by (simp add: list_all_iff u_def)
qed

text \<open>
  Claim C4, as amended. A call of \<^verbatim>\<open>init\<close> whose response has status 200 and whose body
  matches all four patterns returns true, sets \<^verbatim>\<open>cookies\<close> to the four pairs
  \<^verbatim>\<open>_js_datr=..; abra_csrf=..; datr=..; lsd=..\<close> built from the four captured values (the
  anti-forgery token is the fourth cookie), sets \<^verbatim>\<open>lsd\<close> to the fourth captured value, and
  changes nothing else. The value captured by a cookie pattern is the text between the
  first occurrence of its marker and the next double quote, when no line terminator comes
  between.
\<close>

theorem init_sets_four_cookies:
  "(net init_request = Resolved response \<and> status response = 200
      \<and> match1 (data response) re_abra_csrf = Inr abra_csrf
      \<and> match1 (data response) re_js_datr = Inr js_datr
      \<and> match1 (data response) re_datr = Inr datr
      \<and> match1 (data response) re_lsd = Inr lsd_token \<longrightarrow>
      init net s =
        (Returned True,
         s\<lparr>cookies := u ''_js_datr='' @ js_datr @ u ''; abra_csrf='' @ abra_csrf
                        @ u ''; datr='' @ datr @ u ''; lsd='' @ lsd_token,
           lsd := lsd_token\<rparr>))
   \<and> (list_all value_char v
        \<and> (\<forall>i<length pre. \<not> starts_with (drop i (pre @ m @ v @ 0x22 # rest)) m) \<longrightarrow>
        match1 (Json (JStr (pre @ m @ v @ 0x22 # rest))) [Lit m, Dots True, Lit [0x22]] = Inr v)"
proof (intro conjI impI)
  assume "net init_request = Resolved response \<and> status response = 200
      \<and> match1 (data response) re_abra_csrf = Inr abra_csrf
      \<and> match1 (data response) re_js_datr = Inr js_datr
      \<and> match1 (data response) re_datr = Inr datr
      \<and> match1 (data response) re_lsd = Inr lsd_token"
  then show "init net s =
        (Returned True,
         s\<lparr>cookies := u ''_js_datr='' @ js_datr @ u ''; abra_csrf='' @ abra_csrf
                        @ u ''; datr='' @ datr @ u ''; lsd='' @ lsd_token,
           lsd := lsd_token\<rparr>)"
    by (simp add: init_def)
next
  assume "list_all value_char v
        \<and> (\<forall>i<length pre. \<not> starts_with (drop i (pre @ m @ v @ 0x22 # rest)) m)"
  then have "regex_exec [Lit m, Dots True, Lit [0x22]] (pre @ m @ v @ 0x22 # rest) = Some v"
    using regex_exec_marker by blast
  then show "match1 (Json (JStr (pre @ m @ v @ 0x22 # rest))) [Lit m, Dots True, Lit [0x22]] = Inr v"
    by (simp add: match1_def)
qed

text \<open>
  The theorem at the example page: the four captures give the cookie string, and the first
  capture is the text between the marker and the next double quote.
\<close>

theorem init_sets_four_cookies_witness:
  "init page_ok (new_MetaAI (u ''c0'')) =
     (Returned True,
      \<lparr>access_token = Json (JStr []), cookies = u ''_js_datr=J2; abra_csrf=A1; datr=D3; lsd=L4'',
       lsd = u ''L4'', conversation_id = u ''c0'', last_fetch_id = Json (JStr [])\<rparr>)
   \<and> match1 (Json (JStr example_page)) re_abra_csrf = Inr (u ''A1'')"
proof -
  have 1: "init page_ok (new_MetaAI (u ''c0'')) =
     (Returned True,
      \<lparr>access_token = Json (JStr []), cookies = u ''_js_datr=J2; abra_csrf=A1; datr=D3; lsd=L4'',
       lsd = u ''L4'', conversation_id = u ''c0'', last_fetch_id = Json (JStr [])\<rparr>)"
    using init_sets_four_cookies[of page_ok "\<lparr>status = 200, data = Json (JStr example_page)\<rparr>"
        "u ''A1''" "u ''J2''" "u ''D3''" "u ''L4''" "new_MetaAI (u ''c0'')"]
    by (simp add: page_ok_def example_page_matches new_MetaAI_def u_def)
  have v: "list_all value_char (u ''A1'')"
    by (simp add: value_char_def line_terminator_def u_def)
  have 2: "match1 (Json (JStr example_page)) re_abra_csrf = Inr (u ''A1'')"
    unfolding cookie_patterns
    using init_sets_four_cookies[where v = "u ''A1''" and pre = \<open>u ''<html>{"''\<close>
        and m = \<open>u ''abra_csrf":{"value":"''\<close>
        and rest = \<open>u ''},"datr":{"value":"D3"},"_js_datr":{"value":"J2"}} ["LSD",[],{"token":"L4"},323]</html>''\<close>]
      v ex_first
    unfolding ex_split by simp
  show ?thesis using 1 2 by simp
qed

text \<open>
  Claim C4 as stated fails: the cookie string holds four pairs, not three. For the example
  page it ends in \<^verbatim>\<open>; lsd=L4\<close>, and a page with the same three cookie values and another
  anti-forgery token gives another cookie string.
\<close>

theorem init_three_cookies_counterexample:
  "cookies (snd (init page_ok (new_MetaAI (u ''c0'')))) = u ''_js_datr=J2; abra_csrf=A1; datr=D3; lsd=L4''
   \<and> cookies (snd (init page_ok (new_MetaAI (u ''c0'')))) \<noteq> u ''_js_datr=J2; abra_csrf=A1; datr=D3''
   \<and> cookies (snd (init empty_lsd_net (new_MetaAI (u ''c0'')))) = u ''_js_datr=J2; abra_csrf=A1; datr=D3; lsd=''
   \<and> cookies (snd (init page_ok (new_MetaAI (u ''c0''))))
       \<noteq> cookies (snd (init empty_lsd_net (new_MetaAI (u ''c0''))))"
proof -
  have 1: "cookies (snd (init page_ok (new_MetaAI (u ''c0''))))
           = u ''_js_datr=J2; abra_csrf=A1; datr=D3; lsd=L4''"
    by (simp add: init_def page_ok_def example_page_matches new_MetaAI_def u_def)
  have 2: "cookies (snd (init empty_lsd_net (new_MetaAI (u ''c0''))))
           = u ''_js_datr=J2; abra_csrf=A1; datr=D3; lsd=''"
    by (simp add: init_def empty_lsd_net_def init_request_def example_page_empty_lsd_matches
        new_MetaAI_def u_def)
  show ?thesis unfolding 1 2 by (simp add: u_def)
qed

section \<open>Responses with a status other than 200\<close>











lemma threadingID_always_half:
  "threadingID always_half 0 = Some (u ''6666666666666666666'', 19)"
  by (subst threadingID.simps)
     (simp add: always_half_def for_digits.simps characters_val charAt_def u_def)








section \<open>The fetch identifier of \<^verbatim>\<open>sources\<close>\<close>










section \<open>Invariants of the session\<close>

















section \<open>The reply of \<^verbatim>\<open>prompt\<close>\<close>










lemma done_fragment_parse:
  \<open>JSON_parse id (u ''{"data":{"node":{"bot_response_message":{"snippet":"Hi","fetch_id":"F1","streaming_state":"OVERALL_DONE"}}}}'')
     = Inr (JObj [(u ''data'', JObj [(u ''node'', JObj [(u ''bot_response_message'',
          JObj [(u ''snippet'', JStr (u ''Hi'')), (u ''fetch_id'', JStr (u ''F1'')),
                (u ''streaming_state'', JStr (u ''OVERALL_DONE''))])])])])\<close>
  by (simp add: u_def json_eval)

lemma done_fragment_reply:
  \<open>parse_reply id (u ''{"data":{"node":{"bot_response_message":{"snippet":"Hi","fetch_id":"F1","streaming_state":"OVERALL_DONE"}}}}'') s
     = (Returned (Json (JStr (u ''Hi''))), s\<lparr>last_fetch_id := Json (JStr (u ''F1''))\<rparr>)\<close>
  by (simp add: parse_reply_def done_fragment_parse message_path_def own_property_def) (simp add: u_def)










section \<open>Responses of status 200 with an unexpected body\<close>



















section \<open>The \<^verbatim>\<open>variables\<close> field of the chat request\<close>

lemma variables_json_message:
  "get_path (Json (variables_json num message conv tid)) [u ''message'', u ''sensitive_string_value'']
     = Inr (Json (JStr message))"
  by (simp add: variables_json_def own_property_def u_def)

lemma parse_prompt_variables_quote:
  "JSON_parse num (prompt_variables [0x22] conv tid) = Inl SyntaxError"
  by (simp add: prompt_variables_def u_def json_eval)

text \<open>
  Claim C10, as amended. The message is spliced into the \<^verbatim>\<open>variables\<close> text without
  escaping. When the message (and the conversation and threading identifiers) contain no
  double quote, no backslash and no control character below U+0020, the text is a JSON
  document whose \<^verbatim>\<open>message.sensitive_string_value\<close> is the message. For the message
  consisting of one double quote the text is not JSON at all. The text is what the chat
  request carries in its \<^verbatim>\<open>variables\<close> field, and a threading identifier returned by
  \<^verbatim>\<open>threadingID\<close> is always free of the three kinds of character.
\<close>

theorem prompt_variables_is_json:
  "(list_all plain_char message \<and> list_all plain_char conv \<and> list_all plain_char tid \<longrightarrow>
      (\<exists>doc. JSON_parse num (prompt_variables message conv tid) = Inr doc
           \<and> get_path (Json doc) [u ''message'', u ''sensitive_string_value'']
               = Inr (Json (JStr message))))
   \<and> JSON_parse num (prompt_variables [0x22] conv tid) = Inl SyntaxError
   \<and> request_field (chat_request tok message tid s) (u ''variables'')
       = Some (prompt_variables message (conversation_id s) tid)
   \<and> (unit_interval rnd \<and> threadingID rnd 0 = Some (tid, p) \<longrightarrow> list_all plain_char tid)"
proof (intro conjI impI)
  assume "list_all plain_char message \<and> list_all plain_char conv \<and> list_all plain_char tid"
  then have "JSON_parse num (prompt_variables message conv tid)
             = Inr (variables_json num message conv tid)"
    by (simp add: parse_prompt_variables)
  then show "\<exists>doc. JSON_parse num (prompt_variables message conv tid) = Inr doc
           \<and> get_path (Json doc) [u ''message'', u ''sensitive_string_value'']
               = Inr (Json (JStr message))"
    using variables_json_message by blast
next
  show "JSON_parse num (prompt_variables [0x22] conv tid) = Inl SyntaxError"
    by (rule parse_prompt_variables_quote)
next
  show "request_field (chat_request tok message tid s) (u ''variables'')
       = Some (prompt_variables message (conversation_id s) tid)"
    by (simp add: chat_request_def prompt_body_def u_def)
next
  assume a: "unit_interval rnd \<and> threadingID rnd 0 = Some (tid, p)"
  then obtain k where "tid = sample rnd 0 k"
    using threadingID_returns_sample[of rnd 0 "(tid, p)"] by auto
  then have "\<forall>c\<in>set tid. is_digit c" using a sample_shape[of rnd 0 k] by simp
  then show "list_all plain_char tid" by (simp add: list_all_iff is_digit_plain)
qed

text \<open>The theorem for the message \<^verbatim>\<open>hi\<close> and the threading identifier of all sixes.\<close>

theorem prompt_variables_is_json_witness:
  "list_all plain_char (u ''hi'')
   \<and> JSON_parse id (prompt_variables (u ''hi'') (u ''c0'') (u ''6666666666666666666''))
       = Inr (variables_json id (u ''hi'') (u ''c0'') (u ''6666666666666666666''))
   \<and> get_path (Json (variables_json id (u ''hi'') (u ''c0'') (u ''6666666666666666666'')))
        [u ''message'', u ''sensitive_string_value''] = Inr (Json (JStr (u ''hi'')))"
proof -
  have ui: "unit_interval always_half"
    by (simp add: unit_interval_def always_half_def)
  have t: "list_all plain_char (u ''6666666666666666666'')"
    using prompt_variables_is_json[where rnd = always_half and tid = "u ''6666666666666666666''"
        and p = 19] ui threadingID_always_half
    by blast
  have p: "list_all plain_char (u ''hi'')" "list_all plain_char (u ''c0'')"
      "list_all plain_char (u ''6666666666666666666'')"
    using t by (simp_all add: plain_char_def u_def)
  have e: "JSON_parse id (prompt_variables (u ''hi'') (u ''c0'') (u ''6666666666666666666''))
       = Inr (variables_json id (u ''hi'') (u ''c0'') (u ''6666666666666666666''))"
    using p by (rule parse_prompt_variables)
  have "\<exists>doc. JSON_parse id (prompt_variables (u ''hi'') (u ''c0'') (u ''6666666666666666666'')) = Inr doc
           \<and> get_path (Json doc) [u ''message'', u ''sensitive_string_value'']
               = Inr (Json (JStr (u ''hi'')))"
    using prompt_variables_is_json[of "u ''hi''" "u ''c0''" "u ''6666666666666666666''" id] p
    by blast
  then show ?thesis using e p(1) by auto
qed

text \<open>
  Claim C10 as stated fails: a message that is a single line feed has neither a double
  quote nor a backslash, and the text built from it is not JSON, since a string may not
  hold a raw control character.
\<close>

theorem prompt_variables_newline_counterexample:
  "0x22 \<notin> set [0x0A :: 16 word] \<and> 0x5C \<notin> set [0x0A :: 16 word]
   \<and> JSON_parse id (prompt_variables [0x0A] (u ''c0'') (u ''6666666666666666666''))
       = Inl SyntaxError"
  by (simp add: prompt_variables_def u_def json_eval)

end
